theory Spec2Isabelle
  imports Complex_Main "HOL-Library.Word" "HOL-Library.Stream" "HOL-Library.Sublist"
begin

section \<open>Paired random crop, paired dataset and checkpoint writer of \<open>utils/utils.py\<close>\<close>

text \<open>
  The module is Python glue over four libraries: \<open>random\<close>, \<open>os\<close>, Pillow
  (\<open>PIL.Image\<close>) and torchvision (\<open>ToTensor\<close>). The functions of the module are
  embedded below line by line; the library calls they make are embedded by their
  documented behaviour, each in a definition of its own that carries the library's name.

  Exceptions are values of the type \<open>error\<close>, named after the Python exception raised.
  The specification names its errors independently of the language:
  \<open>InsufficientImageSizeError\<close> is the \<open>ValueError\<close> that \<open>random.randint\<close> raises
  on an empty range, \<open>OutOfRangeError\<close> is \<open>IndexError\<close>, and \<open>ImageLoadError\<close> is
  the exception with which \<open>Image.open(...).convert('RGB')\<close> fails (\<open>OSError\<close> and
  its subclasses, identified here by the message).
\<close>

subsection \<open>Errors\<close>

datatype error = ZeroDivisionError | ValueError | IndexError | OSError string

subsection \<open>The random source\<close>

text \<open>
  The process-global generator of \<open>random\<close> is a stream of raw draws, passed explicitly
  and returned advanced. \<open>random.randint(a, b)\<close> raises \<open>ValueError\<close> when the range
  \<open>a..b\<close> is empty, before drawing; otherwise it yields a value of \<open>a..b\<close>
  (inclusive), and every value of the range is the result for some draw.
\<close>

type_synonym rng = "nat stream"

definition randint :: "int \<Rightarrow> int \<Rightarrow> rng \<Rightarrow> (error + int) \<times> rng" where
  "randint a b g =
     (if b < a then (Inl ValueError, g)
      else (Inr (a + int (shd g mod nat (b - a + 1))), stl g))"

subsection \<open>Images and tensors\<close>

text \<open>
  An \<open>image\<close> is a Pillow image in mode RGB, which is what \<open>__getitem__\<close> passes to
  \<open>random_crop\<close> after \<open>convert('RGB')\<close>: a size \<open>(width, height)\<close> and three 8-bit
  bands per pixel. \<open>getpixel\<close> is read inside the size only.
\<close>

type_synonym rgb = "8 word \<times> 8 word \<times> 8 word"

record image =
  img_size :: "nat \<times> nat"
  getpixel :: "nat \<times> nat \<Rightarrow> rgb"

text \<open>
  \<open>Image.crop(box)\<close> with \<open>box = (left, upper, right, lower)\<close>: Pillow raises
  \<open>ValueError\<close> when \<open>right < left\<close> or \<open>lower < upper\<close>; otherwise the result has
  size \<open>(right - left, lower - upper)\<close>, and the part of the box outside the image is
  filled with zeros (it is not an error).
\<close>

definition crop :: "image \<Rightarrow> int \<times> int \<times> int \<times> int \<Rightarrow> error + image" where
  "crop im box =
     (case box of (left, upper, right, lower) \<Rightarrow>
        if right < left then Inl ValueError
        else if lower < upper then Inl ValueError
        else Inr \<lparr>img_size = (nat (right - left), nat (lower - upper)),
                  getpixel = (\<lambda>(i, j).
                    let sx = left + int i; sy = upper + int j
                    in if 0 \<le> sx \<and> sx < int (fst (img_size im)) \<and>
                          0 \<le> sy \<and> sy < int (snd (img_size im))
                       then getpixel im (nat sx, nat sy)
                       else (0, 0, 0))\<rparr>)"

text \<open>
  A tensor is indexed \<open>[channel][row][column]\<close>. \<open>ToTensor\<close> turns an RGB image of
  size \<open>(w, h)\<close> into the three planes red, green, blue of \<open>h\<close> rows of \<open>w\<close> values,
  each the band value divided by 255. torchvision computes the quotient in 32-bit
  floating point; it is the exact quotient here.
\<close>

type_synonym tensor = "real list list list"

definition bands :: "(rgb \<Rightarrow> 8 word) list" where
  "bands = [\<lambda>(r, g, b). r, \<lambda>(r, g, b). g, \<lambda>(r, g, b). b]"

definition ToTensor :: "image \<Rightarrow> tensor" where
  "ToTensor pic =
     (case img_size pic of (w, h) \<Rightarrow>
        map (\<lambda>band. map (\<lambda>y. map (\<lambda>x. real (unat (band (getpixel pic (x, y)))) / 255)
                                  [0..<w]) [0..<h]) bands)"

definition has_shape :: "tensor \<Rightarrow> nat \<times> nat \<times> nat \<Rightarrow> bool" where
  "has_shape t shp =
     (case shp of (c, h, w) \<Rightarrow>
        length t = c \<and>
        list_all (\<lambda>plane. length plane = h \<and> list_all (\<lambda>row. length row = w) plane) t)"

definition in_unit_range :: "tensor \<Rightarrow> bool" where
  "in_unit_range t = list_all (list_all (list_all (\<lambda>v. 0 \<le> v \<and> v \<le> 1))) t"

subsection \<open>\<open>random_crop\<close>\<close>

text \<open>
  Lines 12 to 20 of the source: the low-res crop size by floor division (Python's
  \<open>//\<close> is \<open>div\<close> on \<open>int\<close>, and raises \<open>ZeroDivisionError\<close> for a zero divisor),
  the two draws, and the high-res origin. The result is
  \<open>(lowres_crop_size, lowres_x, lowres_y, highres_x, highres_y)\<close>.
\<close>

definition crop_coords ::
  "image \<Rightarrow> int \<Rightarrow> int \<Rightarrow> rng \<Rightarrow> (error + int \<times> int \<times> int \<times> int \<times> int) \<times> rng" where
  "crop_coords lowres_img hr_crop_size scale g =
     (if scale = 0 then (Inl ZeroDivisionError, g)
      else
        let lowres_crop_size = hr_crop_size div scale in
        case randint 0 (int (fst (img_size lowres_img)) - lowres_crop_size) g of
          (Inl e, g1) \<Rightarrow> (Inl e, g1)
        | (Inr lowres_x, g1) \<Rightarrow>
            (case randint 0 (int (snd (img_size lowres_img)) - lowres_crop_size) g1 of
               (Inl e, g2) \<Rightarrow> (Inl e, g2)
             | (Inr lowres_y, g2) \<Rightarrow>
                 let highres_x = lowres_x * scale;
                     highres_y = lowres_y * scale
                 in (Inr (lowres_crop_size, lowres_x, lowres_y, highres_x, highres_y), g2)))"

text \<open>Lines 23 to 30: the two crops and their conversion.\<close>

definition random_crop ::
  "image \<Rightarrow> image \<Rightarrow> int \<Rightarrow> int \<Rightarrow> rng \<Rightarrow> (error + tensor \<times> tensor) \<times> rng" where
  "random_crop lowres_img highres_img hr_crop_size scale g =
     (case crop_coords lowres_img hr_crop_size scale g of
        (Inl e, g') \<Rightarrow> (Inl e, g')
      | (Inr (lowres_crop_size, lowres_x, lowres_y, highres_x, highres_y), g') \<Rightarrow>
          (case crop lowres_img (lowres_x, lowres_y,
                                 lowres_x + lowres_crop_size, lowres_y + lowres_crop_size) of
             Inl e \<Rightarrow> (Inl e, g')
           | Inr lowres_img_cropped \<Rightarrow>
               (case crop highres_img (highres_x, highres_y,
                                       highres_x + hr_crop_size, highres_y + hr_crop_size) of
                  Inl e \<Rightarrow> (Inl e, g')
                | Inr highres_img_cropped \<Rightarrow>
                    (Inr (ToTensor lowres_img_cropped, ToTensor highres_img_cropped), g'))))"

subsection \<open>Strings and paths\<close>

text \<open>
  \<open>str.endswith\<close> with a tuple of suffixes holds when one of them is a suffix; the
  comparison is by character, so it is case-sensitive.
\<close>

definition endswith :: "string \<Rightarrow> string list \<Rightarrow> bool" where
  "endswith f sufs =
     list_ex (\<lambda>suf. length suf \<le> length f \<and> drop (length f - length suf) f = suf) sufs"

text \<open>\<open>os.path.join\<close> of two components, as \<open>posixpath.join\<close> computes it.\<close>

definition join :: "string \<Rightarrow> string \<Rightarrow> string" where
  "join a b =
     (if take 1 b = ''/'' then b
      else if a = [] \<or> last a = CHR ''/'' then a @ b
      else a @ ''/'' @ b)"

text \<open>The decimal text of an integer, as an f-string prints it.\<close>

fun digits :: "nat \<Rightarrow> string" where
  "digits n =
     (if n < 10 then [''0123456789'' ! n]
      else digits (n div 10) @ [''0123456789'' ! (n mod 10)])"

declare digits.simps [simp del]

definition str_int :: "int \<Rightarrow> string" where
  "str_int i = (if i < 0 then ''-'' @ digits (nat (- i)) else digits (nat i))"

subsection \<open>The paired dataset\<close>

text \<open>
  What the dataset reads from the outside: \<open>os.listdir\<close> of a directory and
  \<open>Image.open(path).convert('RGB')\<close> of a path. Each either yields its value or
  raises; \<open>Inl m\<close> is the exception raised, with \<open>m\<close> the text \<open>str(e)\<close> of it.
\<close>

record world =
  listdir :: "string \<Rightarrow> string + string list"
  open_RGB :: "string \<Rightarrow> string + image"

record CustomDataset =
  lowres_dir :: string
  highres_dir :: string
  image_files :: "string list"
  hr_crop_size :: int
  scale :: int

text \<open>
  The state a method of the dataset runs in: the object itself, the random source, the
  lines printed so far, and the paths handed to \<open>Image.open\<close> so far.
\<close>

record pystate =
  self :: CustomDataset
  rng :: rng
  stdout :: "string list"
  opened :: "string list"

text \<open>\<open>__init__\<close>: the listing filtered by extension, in the order of the listing.\<close>

definition init ::
  "world \<Rightarrow> string \<Rightarrow> string \<Rightarrow> int \<Rightarrow> int \<Rightarrow> string list
     \<Rightarrow> (error + CustomDataset) \<times> string list" where
  "init w lowres_dir' highres_dir' hr_crop_size' scale' out =
     (case listdir w lowres_dir' of
        Inl m \<Rightarrow> (Inl (OSError m), out)
      | Inr entries \<Rightarrow>
          let obj = \<lparr>lowres_dir = lowres_dir', highres_dir = highres_dir',
                     image_files =
                       filter (\<lambda>f. endswith f [''.png'', ''.jpg'', ''.jpeg'']) entries,
                     hr_crop_size = hr_crop_size', scale = scale'\<rparr>
          in if length (image_files obj) = 0
             then (Inr obj, out @ [''No image files found in '' @ lowres_dir (obj) @
                                   ''. Please check the directory and file formats.''])
             else (Inr obj, out @ [''Found '' @ str_int (int (length (image_files obj))) @
                                   '' image files in '' @ lowres_dir obj]))"

definition len :: "CustomDataset \<Rightarrow> nat" where
  "len obj = length (image_files obj)"

text \<open>
  Indexing a Python list with an integer: an index below zero counts from the end,
  and an index that is still outside the list raises \<open>IndexError\<close>.
\<close>

definition list_getitem :: "'a list \<Rightarrow> int \<Rightarrow> error + 'a" where
  "list_getitem xs i =
     (if 0 \<le> i \<and> i < int (length xs) then Inr (xs ! nat i)
      else if - int (length xs) \<le> i \<and> i < 0 then Inr (xs ! nat (int (length xs) + i))
      else Inl IndexError)"

definition load_error_line :: "string \<Rightarrow> string \<Rightarrow> string \<Rightarrow> string" where
  "load_error_line lowres_path highres_path m =
     ''Error loading image '' @ lowres_path @ '' or '' @ highres_path @ '': '' @ m"

text \<open>
  \<open>__getitem__\<close>. The source evaluates \<open>self.image_files[idx]\<close> once for each path;
  both evaluations read the same list with the same index. The low-res file is opened
  first, and the high-res file only when that succeeded.
\<close>

definition getitem :: "world \<Rightarrow> int \<Rightarrow> pystate \<Rightarrow> (error + tensor \<times> tensor) \<times> pystate" where
  "getitem w idx s =
     (case list_getitem (image_files (self s)) idx of
        Inl e \<Rightarrow> (Inl e, s)
      | Inr name \<Rightarrow>
          let lowres_path = join (lowres_dir (self s)) name;
              highres_path = join (highres_dir (self s)) name
          in case open_RGB w lowres_path of
               Inl m \<Rightarrow>
                 (Inl (OSError m),
                  s\<lparr>stdout := stdout s @ [load_error_line lowres_path highres_path m],
                    opened := opened s @ [lowres_path]\<rparr>)
             | Inr lowres_image \<Rightarrow>
                 (case open_RGB w highres_path of
                    Inl m \<Rightarrow>
                      (Inl (OSError m),
                       s\<lparr>stdout := stdout s @ [load_error_line lowres_path highres_path m],
                         opened := opened s @ [lowres_path, highres_path]\<rparr>)
                  | Inr highres_image \<Rightarrow>
                      (case random_crop lowres_image highres_image
                              (hr_crop_size (self s)) (scale (self s)) (rng s) of
                         (r, g') \<Rightarrow>
                           (r, s\<lparr>rng := g',
                                 opened := opened s @ [lowres_path, highres_path]\<rparr>))))"

text \<open>
  The count the specification gives for the length of the dataset: the number of
  entries of the listing whose name ends in \<open>.png\<close>, \<open>.jpg\<close> or \<open>.jpeg\<close>.
\<close>

definition recognized :: "string \<Rightarrow> bool" where
  "recognized name = (suffix ''.png'' name \<or> suffix ''.jpg'' name \<or> suffix ''.jpeg'' name)"

definition recognized_count :: "string list \<Rightarrow> nat" where
  "recognized_count entries = card {i. i < length entries \<and> recognized (entries ! i)}"

subsection \<open>The checkpoint writer\<close>

text \<open>
  The file system \<open>save_checkpoint\<close> works on maps a path to a directory or to a
  written checkpoint. A path is known under its text without trailing separators (a
  path of separators only stays as it is). Intermediate directories, permissions and
  devices are not part of it. \<open>os.path.exists('')\<close> is false and \<open>os.makedirs('')\<close>
  raises; \<open>os.makedirs\<close> raises on a path that exists; \<open>torch.save\<close> opens its path
  for writing, which raises when the directory part is not a directory or the path is
  one, and replaces a file that is there.
\<close>

record ('m, 'o) checkpoint =
  model_state_dict :: 'm
  optimizer_state_dict :: 'o
  epoch :: int

datatype ('m, 'o) node = Dir | File "('m, 'o) checkpoint"

record ('m, 'o) machine =
  files :: "string \<rightharpoonup> ('m, 'o) node"
  printed :: "string list"

definition rstrip_sep :: "string \<Rightarrow> string" where
  "rstrip_sep p = rev (dropWhile (\<lambda>c. c = CHR ''/'') (rev p))"

definition key :: "string \<Rightarrow> string" where
  "key p = (if list_all (\<lambda>c. c = CHR ''/'') p then p else rstrip_sep p)"

text \<open>\<open>posixpath.dirname\<close>: the text up to the last separator, trailing separators dropped.\<close>

definition dirname :: "string \<Rightarrow> string" where
  "dirname p = key (rev (dropWhile (\<lambda>c. c \<noteq> CHR ''/'') (rev p)))"

definition exists :: "(string \<rightharpoonup> ('m, 'o) node) \<Rightarrow> string \<Rightarrow> bool" where
  "exists fs p = (p \<noteq> [] \<and> fs (key p) \<noteq> None)"

definition makedirs :: "string \<Rightarrow> (string \<rightharpoonup> ('m, 'o) node) \<Rightarrow> error + (string \<rightharpoonup> ('m, 'o) node)" where
  "makedirs p fs =
     (if p = [] then Inl (OSError ''No such file or directory'')
      else if fs (key p) \<noteq> None then Inl (OSError ''File exists'')
      else Inr (fs(key p \<mapsto> Dir)))"

definition torch_save ::
  "('m, 'o) checkpoint \<Rightarrow> string \<Rightarrow> (string \<rightharpoonup> ('m, 'o) node)
     \<Rightarrow> error + (string \<rightharpoonup> ('m, 'o) node)" where
  "torch_save obj path fs =
     (if dirname path \<noteq> [] \<and> fs (dirname path) \<noteq> Some Dir
      then Inl (OSError ''No such file or directory'')
      else if fs (key path) = Some Dir then Inl (OSError ''Is a directory'')
      else Inr (fs(key path \<mapsto> File obj)))"

definition checkpoint_name :: "int \<Rightarrow> string" where
  "checkpoint_name epoch' = ''model_epoch_'' @ str_int epoch' @ ''_64_numfeatures.pth''"

text \<open>\<open>save_checkpoint\<close>; \<open>model\<close> and \<open>optimizer\<close> stand for their \<open>state_dict()\<close>.\<close>

definition save_checkpoint ::
  "'m \<Rightarrow> 'o \<Rightarrow> string \<Rightarrow> int \<Rightarrow> ('m, 'o) machine \<Rightarrow> (error + unit) \<times> ('m, 'o) machine" where
  "save_checkpoint model optimizer checkpoint_dir epoch' s =
     (case (if \<not> exists (files s) checkpoint_dir then makedirs checkpoint_dir (files s)
            else Inr (files s)) of
        Inl e \<Rightarrow> (Inl e, s)
      | Inr fs1 \<Rightarrow>
          let checkpoint_path = join checkpoint_dir (checkpoint_name epoch') in
          case torch_save \<lparr>model_state_dict = model, optimizer_state_dict = optimizer,
                            epoch = epoch'\<rparr> checkpoint_path fs1 of
            Inl e \<Rightarrow> (Inl e, s\<lparr>files := fs1\<rparr>)
          | Inr fs2 \<Rightarrow>
              (Inr (), s\<lparr>files := fs2,
                         printed := printed s @ [''Checkpoint saved at '' @ checkpoint_path]\<rparr>))"

subsection \<open>Test data\<close>

text \<open>
  A black image of a given size, a directory \<open>lr\<close> with five entries of which
  \<open>lr/a.png\<close> and \<open>hr/a.png\<close> open as images, and a dataset over it, for the
  concrete instances below.
\<close>

definition black :: "nat \<Rightarrow> nat \<Rightarrow> image" where
  "black w h = \<lparr>img_size = (w, h), getpixel = (\<lambda>_. (0, 0, 0))\<rparr>"

definition sample_world :: world where
  "sample_world =
     \<lparr>listdir = (\<lambda>d. if d = ''lr'' then Inr [''a.png'', ''notes.txt'', ''b.jpg'', ''c.jpeg'', ''d.PNG'']
                     else Inl ''No such file or directory''),
      open_RGB = (\<lambda>p. if p = ''lr/a.png'' then Inr (black 2 2)
                      else if p = ''hr/a.png'' then Inr (black 4 4)
                      else Inl ''No such file or directory'')\<rparr>"

definition sample_state :: pystate where
  "sample_state =
     \<lparr>self = \<lparr>lowres_dir = ''lr'', highres_dir = ''hr'', image_files = [''a.png'', ''b.jpg''],
               hr_crop_size = 4, scale = 2\<rparr>,
      rng = sconst 0, stdout = [], opened = []\<rparr>"

section \<open>Properties\<close>

subsection \<open>Library facts\<close>

lemma has_shape_ToTensor:
  "has_shape (ToTensor pic) (3, snd (img_size pic), fst (img_size pic))"
  by (cases "img_size pic") (simp add: has_shape_def ToTensor_def bands_def list_all_iff)

lemma unsigned_byte_bounds: "0 \<le> (unsigned (v :: 8 word) :: real) \<and> (unsigned v :: real) \<le> 255"
proof -
  have e: "(unsigned v :: real) = real (unat v)" by simp
  have "unat v < 2 ^ 8" using unsigned_less [of v] by simp
  then have "unat v \<le> 255" by simp
  then have "real (unat v) \<le> real 255" by (rule of_nat_mono)
  moreover have "0 \<le> real (unat v)" by (rule of_nat_0_le_iff)
  ultimately show ?thesis unfolding e by simp
qed

lemma in_unit_range_ToTensor: "in_unit_range (ToTensor pic)"
  by (cases "img_size pic")
     (simp add: in_unit_range_def ToTensor_def list_all_iff unsigned_byte_bounds)

lemma randint_ok:
  "a \<le> b \<Longrightarrow> \<exists>v. randint a b g = (Inr v, stl g) \<and> a \<le> v \<and> v \<le> b"
proof -
  assume ab: "a \<le> b"
  then have pos: "0 < nat (b - a + 1)" by simp
  have "shd g mod nat (b - a + 1) < nat (b - a + 1)" using pos by (rule mod_less_divisor)
  then have "int (shd g mod nat (b - a + 1)) \<le> b - a" using ab by linarith
  then show ?thesis using ab by (simp add: randint_def)
qed

lemma randint_empty: "b < a \<Longrightarrow> randint a b g = (Inl ValueError, g)"
  by (simp add: randint_def)

lemma randint_onto:
  assumes "a \<le> v" "v \<le> b"
  shows "\<exists>g. randint a b g = (Inr v, stl g)"
proof -
  have "nat (v - a) < nat (b - a + 1)" using assms by linarith
  then have "randint a b (sconst (nat (v - a))) = (Inr v, stl (sconst (nat (v - a))))"
    using assms by (simp add: randint_def)
  then show ?thesis by blast
qed


lemma crop_ok:
  "left \<le> right \<Longrightarrow> upper \<le> lower \<Longrightarrow>
   \<exists>im'. crop im (left, upper, right, lower) = Inr im' \<and>
         img_size im' = (nat (right - left), nat (lower - upper))"
  by (simp add: crop_def)

subsection \<open>The paired cropper\<close>

lemma crop_coords_ok:
  assumes "sc \<noteq> 0"
    and "hcs div sc \<le> int (fst (img_size lr))" and "hcs div sc \<le> int (snd (img_size lr))"
  shows "\<exists>lx ly. crop_coords lr hcs sc g = (Inr (hcs div sc, lx, ly, lx * sc, ly * sc), stl (stl g)) \<and>
           0 \<le> lx \<and> lx \<le> int (fst (img_size lr)) - hcs div sc \<and>
           0 \<le> ly \<and> ly \<le> int (snd (img_size lr)) - hcs div sc"
proof -
  obtain lx where lx: "randint 0 (int (fst (img_size lr)) - hcs div sc) g = (Inr lx, stl g)"
    "0 \<le> lx" "lx \<le> int (fst (img_size lr)) - hcs div sc"
    using randint_ok [of 0 "int (fst (img_size lr)) - hcs div sc" g] assms(2) by auto
  obtain ly where ly: "randint 0 (int (snd (img_size lr)) - hcs div sc) (stl g) = (Inr ly, stl (stl g))"
    "0 \<le> ly" "ly \<le> int (snd (img_size lr)) - hcs div sc"
    using randint_ok [of 0 "int (snd (img_size lr)) - hcs div sc" "stl g"] assms(3) by auto
  show ?thesis using assms(1) lx ly by (simp add: crop_coords_def)
qed

lemma crop_coords_small:
  assumes "sc \<noteq> 0"
    and "int (fst (img_size lr)) < hcs div sc \<or> int (snd (img_size lr)) < hcs div sc"
  shows "fst (crop_coords lr hcs sc g) = Inl ValueError"
proof (cases "int (fst (img_size lr)) < hcs div sc")
  case True
  then show ?thesis using assms(1) by (simp add: crop_coords_def randint_empty)
next
  case False
  then have h: "int (snd (img_size lr)) < hcs div sc" using assms(2) by simp
  obtain lx where lx: "randint 0 (int (fst (img_size lr)) - hcs div sc) g = (Inr lx, stl g)"
    using randint_ok [of 0 "int (fst (img_size lr)) - hcs div sc" g] False by auto
  show ?thesis using assms(1) lx h by (simp add: crop_coords_def randint_empty)
qed

lemma random_crop_ok:
  assumes "0 < sc" and "0 \<le> hcs"
    and "hcs div sc \<le> int (fst (img_size lr))" and "hcs div sc \<le> int (snd (img_size lr))"
  shows "\<exists>lt ht. random_crop lr hr hcs sc g = (Inr (lt, ht), stl (stl g)) \<and>
           has_shape lt (3, nat (hcs div sc), nat (hcs div sc)) \<and>
           has_shape ht (3, nat hcs, nat hcs) \<and> in_unit_range lt \<and> in_unit_range ht"
proof -
  have sc: "sc \<noteq> 0" using assms(1) by simp
  have lcs: "0 \<le> hcs div sc" using assms(1,2) by (simp add: pos_imp_zdiv_nonneg_iff)
  obtain lx ly where
    cc: "crop_coords lr hcs sc g = (Inr (hcs div sc, lx, ly, lx * sc, ly * sc), stl (stl g))"
    using crop_coords_ok [OF sc assms(3,4)] by blast
  obtain lc where lc: "crop lr (lx, ly, lx + hcs div sc, ly + hcs div sc) = Inr lc"
    "img_size lc = (nat (hcs div sc), nat (hcs div sc))"
    using crop_ok [of lx "lx + hcs div sc" ly "ly + hcs div sc" lr] lcs by auto
  obtain hc where hc: "crop hr (lx * sc, ly * sc, lx * sc + hcs, ly * sc + hcs) = Inr hc"
    "img_size hc = (nat hcs, nat hcs)"
    using crop_ok [of "lx * sc" "lx * sc + hcs" "ly * sc" "ly * sc + hcs" hr] assms(2) by auto
  have r: "random_crop lr hr hcs sc g = (Inr (ToTensor lc, ToTensor hc), stl (stl g))"
    using cc lc(1) hc(1) by (simp add: random_crop_def)
  have "has_shape (ToTensor lc) (3, nat (hcs div sc), nat (hcs div sc))"
    using has_shape_ToTensor [of lc] lc(2) by simp
  moreover have "has_shape (ToTensor hc) (3, nat hcs, nat hcs)"
    using has_shape_ToTensor [of hc] hc(2) by simp
  ultimately show ?thesis using r in_unit_range_ToTensor by blast
qed

text \<open>
  Claim C1. For positive \<open>crop_size_hr\<close> and \<open>scale\<close> with \<open>scale\<close> dividing
  \<open>crop_size_hr\<close>, a low-res image of at least \<open>crop_size_hr / scale\<close> in each
  dimension and a high-res image of at least \<open>crop_size_hr\<close>, \<open>random_crop\<close> returns,
  for every state of the random source, a low-res tensor of shape
  \<open>(3, crop_size_hr / scale, crop_size_hr / scale)\<close> and a high-res tensor of shape
  \<open>(3, crop_size_hr, crop_size_hr)\<close>, channel first, with every value in \<open>[0, 1]\<close>.
\<close>

theorem random_crop_shapes:
  assumes "0 < hcs" and "0 < sc" and "hcs mod sc = 0"
    and "hcs div sc \<le> int (fst (img_size lr))" and "hcs div sc \<le> int (snd (img_size lr))"
    and "hcs \<le> int (fst (img_size hr))" and "hcs \<le> int (snd (img_size hr))"
  shows "\<exists>lt ht g'. random_crop lr hr hcs sc g = (Inr (lt, ht), g') \<and>
           has_shape lt (3, nat (hcs div sc), nat (hcs div sc)) \<and>
           has_shape ht (3, nat hcs, nat hcs) \<and> in_unit_range lt \<and> in_unit_range ht"
  using random_crop_ok [of sc hcs lr hr g] assms(1,2,4,5) by auto

theorem random_crop_shapes_witness:
  "\<exists>lt ht g'. random_crop (black 3 2) (black 12 8) 8 4 (sconst 5) = (Inr (lt, ht), g') \<and>
           has_shape lt (3, 2, 2) \<and> has_shape ht (3, 8, 8) \<and> in_unit_range lt \<and> in_unit_range ht"
  using random_crop_shapes [of 8 4 "black 3 2" "black 12 8" "sconst 5"]
  by (simp add: black_def)

text \<open>
  Claim C2. Whatever the random source yields, the high-res crop origin is the low-res
  crop origin times the scale, \<open>x_hr = x_lr * scale\<close> and \<open>y_hr = y_lr * scale\<close>, and
  the tensors returned are the conversions of the low-res region at \<open>(x_lr, y_lr)\<close> and
  of the high-res region at \<open>(x_lr * scale, y_lr * scale)\<close>.
\<close>

theorem crop_origin_correspondence:
  assumes "crop_coords lr hcs sc g = (Inr (lcs, lx, ly, hx, hy), g')"
  shows "hx = lx * sc \<and> hy = ly * sc \<and>
         (\<forall>lt ht g''. random_crop lr hr hcs sc g = (Inr (lt, ht), g'') \<longrightarrow>
            (\<exists>lc hc. crop lr (lx, ly, lx + lcs, ly + lcs) = Inr lc \<and>
                     crop hr (lx * sc, ly * sc, lx * sc + hcs, ly * sc + hcs) = Inr hc \<and>
                     lt = ToTensor lc \<and> ht = ToTensor hc))"
proof -
  have o: "hx = lx * sc \<and> hy = ly * sc"
    using assms
    by (auto simp: crop_coords_def Let_def split: if_splits prod.splits sum.splits)
  show ?thesis using o assms
    by (auto simp: random_crop_def split: sum.splits)
qed

theorem crop_origin_correspondence_witness:
  "crop_coords (black 4 4) 4 2 (sconst 4) = (Inr (2, 1, 1, 2, 2), sconst 4) \<and>
   (2 :: int) = 1 * 2 \<and>
   (\<exists>lc hc. crop (black 4 4) (1, 1, 3, 3) = Inr lc \<and> crop (black 8 8) (2, 2, 6, 6) = Inr hc \<and>
      random_crop (black 4 4) (black 8 8) 4 2 (sconst 4) = (Inr (ToTensor lc, ToTensor hc), sconst 4))"
proof -
  have c: "crop_coords (black 4 4) 4 2 (sconst 4) = (Inr (2, 1, 1, 2, 2), sconst 4)"
    by (simp add: crop_coords_def randint_def black_def)
  obtain lc where lc: "crop (black 4 4) (1, 1, 3, 3) = Inr lc"
    by (simp add: crop_def)
  obtain hc where hc: "crop (black 8 8) (2, 2, 6, 6) = Inr hc"
    by (simp add: crop_def)
  have r: "random_crop (black 4 4) (black 8 8) 4 2 (sconst 4) =
             (Inr (ToTensor lc, ToTensor hc), sconst 4)"
    unfolding random_crop_def c using lc hc by simp
  show ?thesis
    using crop_origin_correspondence [OF c, of "black 8 8"] c r lc hc by simp
qed

text \<open>
  Claim C3. When the low-res image is narrower or lower than the low-res crop size
  \<open>crop_size_hr / scale\<close>, \<open>random_crop\<close> raises: the empty range makes
  \<open>random.randint\<close> raise \<open>ValueError\<close>, the signal of an insufficient image size. No
  crop is returned, clamped or otherwise.
\<close>

theorem small_lowres_raises:
  assumes "sc \<noteq> 0"
    and "int (fst (img_size lr)) < hcs div sc \<or> int (snd (img_size lr)) < hcs div sc"
  shows "fst (random_crop lr hr hcs sc g) = Inl ValueError"
proof -
  obtain g' where "crop_coords lr hcs sc g = (Inl ValueError, g')"
    using crop_coords_small [OF assms, of g] by (cases "crop_coords lr hcs sc g") auto
  then show ?thesis by (simp add: random_crop_def)
qed

theorem small_lowres_raises_witness:
  "fst (random_crop (black 3 1) (black 12 8) 8 4 (sconst 5)) = Inl ValueError"
  using small_lowres_raises [of 4 "black 3 1" 8 "black 12 8" "sconst 5"]
  by (simp add: black_def)

text \<open>
  Claim C10. \<open>random_crop\<close> does not check that \<open>scale\<close> divides
  \<open>crop_size_hr\<close>. For all positive \<open>crop_size_hr\<close> and \<open>scale\<close> the low-res crop size
  is the floor quotient \<open>hr_crop_size // scale\<close>; with a low-res image of at least that
  size the call raises nothing and returns a low-res tensor of the floor size and a
  high-res tensor of size \<open>hr_crop_size\<close>. The instance has \<open>crop_size_hr = 10\<close> and
  \<open>scale = 3\<close>.
\<close>

theorem no_divisibility_check:
  assumes "0 < hcs" and "0 < sc"
    and "hcs div sc \<le> int (fst (img_size lr))" and "hcs div sc \<le> int (snd (img_size lr))"
  shows "\<exists>lx ly g' lt ht.
           crop_coords lr hcs sc g = (Inr (hcs div sc, lx, ly, lx * sc, ly * sc), g') \<and>
           random_crop lr hr hcs sc g = (Inr (lt, ht), g') \<and>
           has_shape lt (3, nat (hcs div sc), nat (hcs div sc)) \<and>
           has_shape ht (3, nat hcs, nat hcs)"
proof -
  have sc: "sc \<noteq> 0" using assms(2) by simp
  show ?thesis
    using crop_coords_ok [OF sc assms(3,4), of g] random_crop_ok [of sc hcs lr hr g] assms
    by fastforce
qed

theorem no_divisibility_check_witness:
  "(10 :: int) mod 3 \<noteq> 0 \<and>
   (\<exists>lx ly g' lt ht.
      crop_coords (black 3 3) 10 3 (sconst 0) = (Inr (3, lx, ly, lx * 3, ly * 3), g') \<and>
      random_crop (black 3 3) (black 10 10) 10 3 (sconst 0) = (Inr (lt, ht), g') \<and>
      has_shape lt (3, 3, 3) \<and> has_shape ht (3, 10, 10))"
  using no_divisibility_check [of 10 3 "black 3 3" "sconst 0" "black 10 10"]
  by (simp add: black_def)

subsection \<open>The paired dataset\<close>

lemma endswith_suffix:
  "(length suf \<le> length f \<and> drop (length f - length suf) f = suf) = suffix suf f"
proof
  assume h: "length suf \<le> length f \<and> drop (length f - length suf) f = suf"
  have "suffix (drop (length f - length suf) f) f" by (rule suffix_drop)
  then show "suffix suf f" using h by simp
next
  assume "suffix suf f"
  then obtain zs where "f = zs @ suf" by (auto simp: suffix_def)
  then show "length suf \<le> length f \<and> drop (length f - length suf) f = suf" by simp
qed

lemma endswith_recognized: "endswith f [''.png'', ''.jpg'', ''.jpeg''] = recognized f"
  by (simp add: endswith_def recognized_def endswith_suffix del: One_nat_def)

lemma recognized_count_filter: "recognized_count entries = length (filter recognized entries)"
  by (simp add: recognized_count_def length_filter_conv_card)

text \<open>
  Claim C5. Whatever \<open>lowres_dir\<close> lists, the constructed dataset has as its length the
  number of entries whose name ends in \<open>.png\<close>, \<open>.jpg\<close> or \<open>.jpeg\<close>, compared by
  character; the other entries are not counted, and the entries kept are in the order of
  the listing. The instance lists three such names, \<open>notes.txt\<close> and \<open>d.PNG\<close>.
\<close>

theorem dataset_length:
  assumes "listdir w d = Inr entries"
  shows "\<exists>obj out'. init w d h hcs sc out = (Inr obj, out') \<and>
           len obj = recognized_count entries \<and>
           image_files obj = filter recognized entries"
proof -
  have e: "(\<lambda>f. endswith f [''.png'', ''.jpg'', ''.jpeg'']) = recognized"
    by (rule ext) (rule endswith_recognized)
  show ?thesis
    using assms by (simp add: init_def Let_def len_def e recognized_count_filter)
qed

theorem dataset_length_witness:
  "\<exists>obj out'. init sample_world ''lr'' ''hr'' 4 2 [] = (Inr obj, out') \<and>
           len obj = recognized_count [''a.png'', ''notes.txt'', ''b.jpg'', ''c.jpeg'', ''d.PNG''] \<and>
           image_files obj = [''a.png'', ''b.jpg'', ''c.jpeg'']"
  using dataset_length [of sample_world "''lr''" "[''a.png'', ''notes.txt'', ''b.jpg'', ''c.jpeg'', ''d.PNG'']" "''hr''" 4 2 "[]"]
  by (simp add: sample_world_def endswith_recognized [symmetric] endswith_def)

lemma random_crop_no_IndexError: "fst (random_crop lr hr hcs sc g) \<noteq> Inl IndexError"
  by (auto simp: random_crop_def crop_coords_def randint_def crop_def Let_def
           split: sum.splits prod.splits if_splits)

lemma random_crop_not_IndexError: "random_crop lr hr hcs sc g \<noteq> (Inl IndexError, g')"
  using random_crop_no_IndexError [of lr hr hcs sc g] by auto

lemma list_getitem_outside:
  "int (length xs) \<le> i \<or> i < - int (length xs) \<Longrightarrow> list_getitem xs i = Inl IndexError"
  by (auto simp: list_getitem_def)

lemma list_getitem_negative:
  "- int (length xs) \<le> i \<Longrightarrow> i < 0 \<Longrightarrow>
   list_getitem xs i = Inr (xs ! nat (int (length xs) + i))"
  by (simp add: list_getitem_def)

lemma list_getitem_inside:
  "0 \<le> i \<Longrightarrow> i < int (length xs) \<Longrightarrow> list_getitem xs i = Inr (xs ! nat i)"
  by (simp add: list_getitem_def)

text \<open>
  Claim C4, as stated: every index outside \<open>[0, length())\<close> raises \<open>IndexError\<close> and
  returns no sample. It fails for the negative indices from \<open>-length()\<close> on: with two
  files, index \<open>-2\<close> is outside the interval and a sample is returned.
\<close>

theorem negative_index_is_served:
  "\<not> (0 \<le> (- 2 :: int) \<and> - 2 < int (len (self sample_state))) \<and>
   \<not> isl (fst (getitem sample_world (- 2) sample_state))"
  by (simp add: getitem_def sample_world_def sample_state_def list_getitem_def join_def
        random_crop_def crop_coords_def randint_def crop_def black_def)

text \<open>
  Claim C4, amended. For every index \<open>i\<close> with \<open>i \<ge> length()\<close> or \<open>i < -length()\<close>,
  \<open>get(i)\<close> raises \<open>IndexError\<close>, returns no sample, and leaves the state as it was.
\<close>

theorem index_beyond_length_raises:
  assumes "int (len (self s)) \<le> idx \<or> idx < - int (len (self s))"
  shows "getitem w idx s = (Inl IndexError, s)"
  using assms by (simp add: getitem_def len_def list_getitem_outside)

theorem index_beyond_length_raises_witness:
  "getitem sample_world 2 sample_state = (Inl IndexError, sample_state) \<and>
   getitem sample_world (- 3) sample_state = (Inl IndexError, sample_state)"
  using index_beyond_length_raises [of sample_state 2 sample_world]
        index_beyond_length_raises [of sample_state "- 3" sample_world]
  by (simp add: sample_state_def len_def)

text \<open>
  Claim C8. A call of \<open>get(index)\<close> leaves the dataset object as it was: the two
  directories, the list of file names, the crop size and the scale are unchanged, on
  every path through the method.
\<close>

theorem getitem_keeps_fields:
  "self (snd (getitem w idx s)) = self s"
  by (simp add: getitem_def Let_def split: sum.splits prod.splits)

theorem getitem_keeps_fields_witness:
  "self (snd (getitem sample_world 0 sample_state)) = self sample_state"
  by (rule getitem_keeps_fields)

text \<open>
  Claim C9. For a dataset of length \<open>n > 0\<close> and an index \<open>idx\<close> with
  \<open>-n \<le> idx < 0\<close>, \<open>get(idx)\<close> does what \<open>get(n + idx)\<close> does: it raises no
  \<open>IndexError\<close>, resolves the paths of entry \<open>n + idx\<close>, and when both files open its
  result is the crop of that pair.
\<close>

theorem negative_index_from_end:
  assumes "0 < len (self s)" and "- int (len (self s)) \<le> idx" and "idx < 0"
  shows "getitem w idx s = getitem w (int (len (self s)) + idx) s \<and>
         fst (getitem w idx s) \<noteq> Inl IndexError \<and>
         (\<forall>lowres_image highres_image.
            open_RGB w (join (lowres_dir (self s))
               (image_files (self s) ! nat (int (len (self s)) + idx))) = Inr lowres_image \<and>
            open_RGB w (join (highres_dir (self s))
               (image_files (self s) ! nat (int (len (self s)) + idx))) = Inr highres_image \<longrightarrow>
            fst (getitem w idx s) =
              fst (random_crop lowres_image highres_image
                     (hr_crop_size (self s)) (scale (self s)) (rng s)))"
proof -
  let ?xs = "image_files (self s)"
  let ?j = "int (length ?xs) + idx"
  have a: "list_getitem ?xs idx = Inr (?xs ! nat ?j)"
    using assms(2,3) by (simp add: list_getitem_negative len_def)
  have b: "list_getitem ?xs ?j = Inr (?xs ! nat ?j)"
    using assms(2,3) by (simp add: list_getitem_inside len_def)
  have same: "getitem w idx s = getitem w ?j s"
    by (simp add: getitem_def a b)
  have noidx: "fst (getitem w idx s) \<noteq> Inl IndexError"
    by (auto simp: getitem_def a Let_def random_crop_not_IndexError
          split: sum.splits prod.splits)
  have crop: "fst (getitem w idx s) = fst (random_crop lr hr (hr_crop_size (self s)) (scale (self s)) (rng s))"
    if "open_RGB w (join (lowres_dir (self s)) (?xs ! nat ?j)) = Inr lr"
      and "open_RGB w (join (highres_dir (self s)) (?xs ! nat ?j)) = Inr hr" for lr hr
    using that by (simp add: getitem_def a Let_def split: prod.splits)
  show ?thesis using same noidx crop by (simp add: len_def)
qed

theorem negative_index_from_end_witness:
  "getitem sample_world (- 2) sample_state = getitem sample_world 0 sample_state \<and>
   fst (getitem sample_world (- 2) sample_state) \<noteq> Inl IndexError \<and>
   fst (getitem sample_world (- 2) sample_state) = fst (random_crop (black 2 2) (black 4 4) 4 2 (sconst 0))"
proof -
  have h1: "0 < len (self sample_state)" by (simp add: sample_state_def len_def)
  have h2: "- int (len (self sample_state)) \<le> - 2" by (simp add: sample_state_def len_def)
  have h3: "(- 2 :: int) < 0" by simp
  have n: "int (len (self sample_state)) + - 2 = 0" by (simp add: sample_state_def len_def)
  have f: "image_files (self sample_state) ! nat 0 = ''a.png''" by (simp add: sample_state_def)
  have lo: "open_RGB sample_world (join (lowres_dir (self sample_state)) ''a.png'') = Inr (black 2 2)"
    by (simp add: sample_state_def sample_world_def join_def)
  have hi: "open_RGB sample_world (join (highres_dir (self sample_state)) ''a.png'') = Inr (black 4 4)"
    by (simp add: sample_state_def sample_world_def join_def)
  have p: "hr_crop_size (self sample_state) = 4" "scale (self sample_state) = 2" "rng sample_state = sconst 0"
    by (simp_all add: sample_state_def)
  note t = negative_index_from_end [OF h1 h2 h3, of sample_world, unfolded n f]
  note c = t [THEN conjunct2, THEN conjunct2, rule_format, OF conjI [OF lo hi], unfolded p]
  show ?thesis
    using t [THEN conjunct1] t [THEN conjunct2, THEN conjunct1] c by blast
qed

text \<open>
  Claim C6. For an index in range, when the low-res file fails to open, or the low-res
  file opens and the high-res file fails, \<open>get(index)\<close> prints one line that contains
  both paths and raises the error of the failed open. No sample is returned, the random
  source is not used, and each file is opened at most once.
\<close>

theorem load_failure_logged_and_raised:
  assumes "0 \<le> idx" and "idx < int (len (self s))"
    and "lowres_path = join (lowres_dir (self s)) (image_files (self s) ! nat idx)"
    and "highres_path = join (highres_dir (self s)) (image_files (self s) ! nat idx)"
    and "open_RGB w lowres_path = Inl m \<or>
         (\<exists>im. open_RGB w lowres_path = Inr im) \<and> open_RGB w highres_path = Inl m"
  shows "\<exists>line. getitem w idx s =
           (Inl (OSError m),
            s\<lparr>stdout := stdout s @ [line],
              opened := opened s @ (if open_RGB w lowres_path = Inl m then [lowres_path]
                                    else [lowres_path, highres_path])\<rparr>) \<and>
           sublist lowres_path line \<and> sublist highres_path line"
proof -
  have a: "list_getitem (image_files (self s)) idx = Inr (image_files (self s) ! nat idx)"
    using assms(1,2) by (simp add: list_getitem_inside len_def)
  let ?line = "load_error_line lowres_path highres_path m"
  have l: "sublist lowres_path ?line"
    unfolding load_error_line_def by (rule sublist_appendI)
  have "sublist highres_path ((''Error loading image '' @ lowres_path @ '' or '') @ highres_path @ '': '' @ m)"
    by (rule sublist_appendI)
  then have h: "sublist highres_path ?line"
    by (simp add: load_error_line_def)
  have "getitem w idx s =
           (Inl (OSError m),
            s\<lparr>stdout := stdout s @ [?line],
              opened := opened s @ (if open_RGB w lowres_path = Inl m then [lowres_path]
                                    else [lowres_path, highres_path])\<rparr>)"
    using assms(5) by (auto simp: getitem_def a Let_def assms(3,4) [symmetric])
  then show ?thesis using l h by blast
qed

theorem load_failure_logged_and_raised_witness:
  "\<exists>line. getitem sample_world 1 sample_state =
           (Inl (OSError ''No such file or directory''),
            sample_state\<lparr>stdout := stdout sample_state @ [line], opened := opened sample_state @ [''lr/b.jpg'']\<rparr>) \<and>
           sublist ''lr/b.jpg'' line \<and> sublist ''hr/b.jpg'' line"
  using load_failure_logged_and_raised
          [of 1 sample_state "''lr/b.jpg''" "''hr/b.jpg''" sample_world "''No such file or directory''"]
  by (simp add: sample_state_def len_def sample_world_def join_def)

subsection \<open>Paths\<close>

lemma digit_cases:
  "k < 10 \<Longrightarrow> k = 0 \<or> k = 1 \<or> k = 2 \<or> k = 3 \<or> k = 4 \<or> k = 5 \<or> k = 6 \<or> k = 7 \<or> k = 8 \<or> k = (9::nat)"
  by arith

lemma digit_no_sep:
  assumes "k < 10"
  shows "''0123456789'' ! k \<noteq> CHR ''/''"
  using digit_cases [OF assms] by (elim disjE) simp_all

lemma digits_no_sep: "CHR ''/'' \<notin> set (digits n)"
proof (induction n rule: digits.induct)
  case (1 n)
  show ?case
  proof (cases "n < 10")
    case True
    then show ?thesis using digit_no_sep [of n] by (subst digits.simps) simp
  next
    case False
    have "n mod 10 < 10" by simp
    then have "''0123456789'' ! (n mod 10) \<noteq> CHR ''/''" by (rule digit_no_sep)
    then show ?thesis using False 1 by (subst digits.simps) simp
  qed
qed

lemma digits_nonempty: "digits n \<noteq> []"
  by (subst digits.simps) simp

lemma checkpoint_name_no_sep: "CHR ''/'' \<notin> set (checkpoint_name e)"
  by (simp add: checkpoint_name_def str_int_def digits_no_sep)

lemma checkpoint_name_nonempty: "checkpoint_name e \<noteq> []"
  by (simp add: checkpoint_name_def)

lemma rstrip_sep_last: "p \<noteq> [] \<Longrightarrow> last p \<noteq> CHR ''/'' \<Longrightarrow> rstrip_sep p = p"
proof (cases p rule: rev_cases)
  case Nil
  assume "p \<noteq> []"
  then show ?thesis using Nil by simp
next
  case (snoc xs c)
  assume "last p \<noteq> CHR ''/''"
  then have "c \<noteq> CHR ''/''" using snoc by simp
  then show ?thesis by (simp add: snoc rstrip_sep_def)
qed

lemma not_all_sep: "p \<noteq> [] \<Longrightarrow> last p \<noteq> CHR ''/'' \<Longrightarrow> \<not> list_all (\<lambda>c. c = CHR ''/'') p"
proof -
  assume n: "p \<noteq> []" and l: "last p \<noteq> CHR ''/''"
  have "last p \<in> set p" using n by (rule last_in_set)
  then show ?thesis using l by (auto simp: list_all_iff)
qed

lemma key_last: "p \<noteq> [] \<Longrightarrow> last p \<noteq> CHR ''/'' \<Longrightarrow> key p = p"
  by (simp add: key_def rstrip_sep_last not_all_sep)

lemma key_length: "length (key p) \<le> length p"
proof -
  have "length (dropWhile (\<lambda>c. c = CHR ''/'') (rev p)) \<le> length (rev p)"
    by (rule length_dropWhile_le)
  then show ?thesis by (simp add: key_def rstrip_sep_def)
qed


lemma key_nonempty: "p \<noteq> [] \<Longrightarrow> key p \<noteq> []"
proof (cases "list_all (\<lambda>c. c = CHR ''/'') p")
  case True
  assume "p \<noteq> []"
  then show ?thesis using True by (simp add: key_def)
next
  case False
  then obtain c where c: "c \<in> set (rev p)" "c \<noteq> CHR ''/''" by (auto simp: list_all_iff)
  have "dropWhile (\<lambda>c. c = CHR ''/'') (rev p) \<noteq> []"
  proof
    assume "dropWhile (\<lambda>c. c = CHR ''/'') (rev p) = []"
    then have "\<forall>x \<in> set (rev p). x = CHR ''/''" by (simp only: dropWhile_eq_Nil_conv)
    then show False using c by blast
  qed
  then show ?thesis using False by (simp add: key_def rstrip_sep_def)
qed

lemma join_plain:
  assumes "name \<noteq> []" and "CHR ''/'' \<notin> set name"
  shows "join d name = (if d = [] \<or> last d = CHR ''/'' then d @ name else d @ ''/'' @ name)"
proof -
  obtain c cs where n: "name = c # cs" using assms(1) by (cases name) auto
  then have "c \<noteq> CHR ''/''" using assms(2) by auto
  then show ?thesis by (simp add: join_def n)
qed

lemma join_last:
  assumes "name \<noteq> []" and "CHR ''/'' \<notin> set name"
  shows "join d name \<noteq> [] \<and> last (join d name) \<noteq> CHR ''/''"
proof -
  have "last name \<in> set name" using assms(1) by (rule last_in_set)
  then have "last name \<noteq> CHR ''/''" using assms(2) by auto
  then show ?thesis using assms by (simp add: join_plain)
qed

lemma key_join:
  assumes "name \<noteq> []" and "CHR ''/'' \<notin> set name"
  shows "key (join d name) = join d name"
  using join_last [OF assms, of d] by (simp add: key_last)

lemma join_not_key:
  assumes "name \<noteq> []" and "CHR ''/'' \<notin> set name"
  shows "join d name \<noteq> key d"
proof -
  have "length d < length (join d name)" using assms by (simp add: join_plain)
  then have "length (key d) < length (join d name)" using key_length [of d] by simp
  then show ?thesis by auto
qed

lemma dirname_join:
  assumes "d \<noteq> []" and "name \<noteq> []" and "CHR ''/'' \<notin> set name"
  shows "dirname (join d name) = key d"
proof -
  have nosep: "x \<noteq> CHR ''/''" if "x \<in> set (rev name)" for x
  proof
    assume "x = CHR ''/''"
    then have "CHR ''/'' \<in> set name" using that by simp
    then show False using assms(3) by simp
  qed
  have drop: "dropWhile (\<lambda>c. c \<noteq> CHR ''/'') (rev name @ ys) = dropWhile (\<lambda>c. c \<noteq> CHR ''/'') ys" for ys
    by (rule dropWhile_append2) (rule nosep)
  show ?thesis
  proof (cases "last d = CHR ''/''")
    case True
    have d: "d = butlast d @ ''/''" using assms(1) True by (metis append_butlast_last_id)
    have j: "join d name = d @ name" using assms True by (simp add: join_plain)
    have "rev (d @ name) = rev name @ CHR ''/'' # rev (butlast d)" by (subst d) simp
    then have "dropWhile (\<lambda>c. c \<noteq> CHR ''/'') (rev (d @ name)) = CHR ''/'' # rev (butlast d)"
      by (simp only: drop) simp
    also have "\<dots> = rev d" by (subst (2) d) simp
    finally show ?thesis by (simp add: dirname_def j)
  next
    case False
    have j: "join d name = d @ ''/'' @ name" using assms False by (simp add: join_plain)
    have "\<not> list_all (\<lambda>c. c = CHR ''/'') d" using assms(1) False by (rule not_all_sep)
    then have na: "\<not> list_all (\<lambda>c. c = CHR ''/'') (d @ ''/'')" by simp
    have "rstrip_sep (d @ ''/'') = rstrip_sep d" by (simp add: rstrip_sep_def)
    then have k: "key (d @ ''/'') = d"
      using assms(1) False na by (simp add: key_def rstrip_sep_last)
    have kd: "key d = d" using assms(1) False by (rule key_last)
    have "rev (d @ ''/'' @ name) = rev name @ CHR ''/'' # rev d" by simp
    then have "dropWhile (\<lambda>c. c \<noteq> CHR ''/'') (rev (d @ ''/'' @ name)) = CHR ''/'' # rev d"
      by (simp only: drop) simp
    then have "rev (dropWhile (\<lambda>c. c \<noteq> CHR ''/'') (rev (d @ ''/'' @ name))) = d @ ''/''"
      by simp
    then show ?thesis unfolding dirname_def j using k kd by simp
  qed
qed

subsection \<open>The checkpoint writer\<close>

lemma save_into_existing:
  assumes "d \<noteq> []" and "files s (key d) = Some Dir"
    and "files s (join d (checkpoint_name e)) \<noteq> Some Dir"
  shows "save_checkpoint m opt d e s =
           (Inr (),
            s\<lparr>files := (files s)(join d (checkpoint_name e) \<mapsto>
                  File \<lparr>model_state_dict = m, optimizer_state_dict = opt, epoch = e\<rparr>),
              printed := printed s @ [''Checkpoint saved at '' @ join d (checkpoint_name e)]\<rparr>)"
proof -
  note n = checkpoint_name_nonempty [of e] checkpoint_name_no_sep [of e]
  have ex: "exists (files s) d" using assms(1,2) by (simp add: exists_def)
  have dn: "dirname (join d (checkpoint_name e)) = key d"
    using assms(1) n by (rule dirname_join)
  have kj: "key (join d (checkpoint_name e)) = join d (checkpoint_name e)"
    using n by (rule key_join)
  have "torch_save \<lparr>model_state_dict = m, optimizer_state_dict = opt, epoch = e\<rparr>
          (join d (checkpoint_name e)) (files s) =
        Inr ((files s)(join d (checkpoint_name e) \<mapsto>
               File \<lparr>model_state_dict = m, optimizer_state_dict = opt, epoch = e\<rparr>))"
    using assms(2,3) by (simp add: torch_save_def dn kj)
  then show ?thesis using ex by (simp add: save_checkpoint_def Let_def)
qed

lemma save_into_fresh:
  assumes "d \<noteq> []" and "\<not> exists (files s) d"
    and "files s (join d (checkpoint_name e)) \<noteq> Some Dir"
  shows "save_checkpoint m opt d e s =
           (Inr (),
            s\<lparr>files := (files s)(key d \<mapsto> Dir, join d (checkpoint_name e) \<mapsto>
                  File \<lparr>model_state_dict = m, optimizer_state_dict = opt, epoch = e\<rparr>),
              printed := printed s @ [''Checkpoint saved at '' @ join d (checkpoint_name e)]\<rparr>)"
proof -
  note n = checkpoint_name_nonempty [of e] checkpoint_name_no_sep [of e]
  have none: "files s (key d) = None" using assms(1,2) by (simp add: exists_def)
  have mk: "makedirs d (files s) = Inr ((files s)(key d \<mapsto> Dir))"
    using assms(1) none by (simp add: makedirs_def)
  have dn: "dirname (join d (checkpoint_name e)) = key d"
    using assms(1) n by (rule dirname_join)
  have kj: "key (join d (checkpoint_name e)) = join d (checkpoint_name e)"
    using n by (rule key_join)
  have ne: "join d (checkpoint_name e) \<noteq> key d"
    using n by (rule join_not_key)
  have "torch_save \<lparr>model_state_dict = m, optimizer_state_dict = opt, epoch = e\<rparr>
          (join d (checkpoint_name e)) ((files s)(key d \<mapsto> Dir)) =
        Inr ((files s)(key d \<mapsto> Dir, join d (checkpoint_name e) \<mapsto>
               File \<lparr>model_state_dict = m, optimizer_state_dict = opt, epoch = e\<rparr>))"
    using assms(3) ne by (simp add: torch_save_def dn kj)
  then show ?thesis using assms(2) mk by (simp add: save_checkpoint_def Let_def)
qed

text \<open>
  Claim C7. For a checkpoint directory that does not exist yet (and no directory in the
  way at the checkpoint's path), \<open>save_checkpoint\<close> creates the directory, writes the
  record of model state, optimizer state and epoch to
  \<open>model_epoch_<epoch>_64_numfeatures.pth\<close> under it and prints that path; called again,
  with the directory now existing, it succeeds again and writes the file of its epoch.
\<close>

theorem save_checkpoint_twice:
  assumes "checkpoint_dir \<noteq> []" and "\<not> exists (files s) checkpoint_dir"
    and "files s (join checkpoint_dir (checkpoint_name e1)) \<noteq> Some Dir"
    and "files s (join checkpoint_dir (checkpoint_name e2)) \<noteq> Some Dir"
  shows "\<exists>s1 s2.
           save_checkpoint m1 opt1 checkpoint_dir e1 s = (Inr (), s1) \<and>
           exists (files s1) checkpoint_dir \<and>
           files s1 (key checkpoint_dir) = Some Dir \<and>
           files s1 (join checkpoint_dir (checkpoint_name e1)) =
             Some (File \<lparr>model_state_dict = m1, optimizer_state_dict = opt1, epoch = e1\<rparr>) \<and>
           printed s1 =
             printed s @ [''Checkpoint saved at '' @ join checkpoint_dir (checkpoint_name e1)] \<and>
           save_checkpoint m2 opt2 checkpoint_dir e2 s1 = (Inr (), s2) \<and>
           files s2 (key checkpoint_dir) = Some Dir \<and>
           files s2 (join checkpoint_dir (checkpoint_name e2)) =
             Some (File \<lparr>model_state_dict = m2, optimizer_state_dict = opt2, epoch = e2\<rparr>)"
proof -
  let ?p1 = "join checkpoint_dir (checkpoint_name e1)"
  let ?p2 = "join checkpoint_dir (checkpoint_name e2)"
  let ?c1 = "\<lparr>model_state_dict = m1, optimizer_state_dict = opt1, epoch = e1\<rparr>"
  let ?c2 = "\<lparr>model_state_dict = m2, optimizer_state_dict = opt2, epoch = e2\<rparr>"
  define s1 where "s1 = s\<lparr>files := (files s)(key checkpoint_dir \<mapsto> Dir, ?p1 \<mapsto> File ?c1),
                           printed := printed s @ [''Checkpoint saved at '' @ ?p1]\<rparr>"
  define s2 where "s2 = s1\<lparr>files := (files s1)(?p2 \<mapsto> File ?c2),
                            printed := printed s1 @ [''Checkpoint saved at '' @ ?p2]\<rparr>"
  have ne1: "?p1 \<noteq> key checkpoint_dir"
    using checkpoint_name_nonempty checkpoint_name_no_sep by (rule join_not_key)
  have ne2: "?p2 \<noteq> key checkpoint_dir"
    using checkpoint_name_nonempty checkpoint_name_no_sep by (rule join_not_key)
  have first: "save_checkpoint m1 opt1 checkpoint_dir e1 s = (Inr (), s1)"
    unfolding s1_def using assms(1,2,3) by (rule save_into_fresh)
  have dir1: "files s1 (key checkpoint_dir) = Some Dir"
    using ne1 by (simp add: s1_def)
  have ex1: "exists (files s1) checkpoint_dir"
    using assms(1) dir1 by (simp add: exists_def)
  have file1: "files s1 ?p1 = Some (File ?c1)" by (simp add: s1_def)
  have pr1: "printed s1 = printed s @ [''Checkpoint saved at '' @ ?p1]" by (simp add: s1_def)
  have free2: "files s1 ?p2 \<noteq> Some Dir"
    using assms(4) ne2 by (simp add: s1_def)
  have second: "save_checkpoint m2 opt2 checkpoint_dir e2 s1 = (Inr (), s2)"
    unfolding s2_def using assms(1) dir1 free2 by (rule save_into_existing)
  have dir2: "files s2 (key checkpoint_dir) = Some Dir"
    using ne2 dir1 by (simp add: s2_def)
  have file2: "files s2 ?p2 = Some (File ?c2)" by (simp add: s2_def)
  show ?thesis using first ex1 dir1 file1 pr1 second dir2 file2 by blast
qed

theorem save_checkpoint_twice_witness:
  "\<exists>s1 s2.
     save_checkpoint (1 :: nat) (2 :: nat) ''ckpt'' 3 \<lparr>files = Map.empty, printed = []\<rparr> = (Inr (), s1) \<and>
     exists (files s1) ''ckpt'' \<and>
     files s1 ''ckpt'' = Some Dir \<and>
     files s1 ''ckpt/model_epoch_3_64_numfeatures.pth'' =
       Some (File \<lparr>model_state_dict = 1, optimizer_state_dict = 2, epoch = 3\<rparr>) \<and>
     printed s1 = [''Checkpoint saved at ckpt/model_epoch_3_64_numfeatures.pth''] \<and>
     save_checkpoint 5 6 ''ckpt'' 4 s1 = (Inr (), s2) \<and>
     files s2 ''ckpt'' = Some Dir \<and>
     files s2 ''ckpt/model_epoch_4_64_numfeatures.pth'' =
       Some (File \<lparr>model_state_dict = 5, optimizer_state_dict = 6, epoch = 4\<rparr>)"
proof -
  have k: "key ''ckpt'' = ''ckpt''" by (simp add: key_def rstrip_sep_def)
  have p3: "join ''ckpt'' (checkpoint_name 3) = ''ckpt/model_epoch_3_64_numfeatures.pth''"
    by (simp add: join_def checkpoint_name_def str_int_def digits.simps)
  have p4: "join ''ckpt'' (checkpoint_name 4) = ''ckpt/model_epoch_4_64_numfeatures.pth''"
    by (simp add: join_def checkpoint_name_def str_int_def digits.simps)
  have h1: "''ckpt'' \<noteq> []" by simp
  have h2: "\<not> exists (files \<lparr>files = (Map.empty :: string \<rightharpoonup> (nat, nat) node), printed = []\<rparr>) ''ckpt''"
    by (simp add: exists_def)
  have h3: "files \<lparr>files = (Map.empty :: string \<rightharpoonup> (nat, nat) node), printed = []\<rparr>
              (join ''ckpt'' (checkpoint_name 3)) \<noteq> Some Dir" by simp
  have h4: "files \<lparr>files = (Map.empty :: string \<rightharpoonup> (nat, nat) node), printed = []\<rparr>
              (join ''ckpt'' (checkpoint_name 4)) \<noteq> Some Dir" by simp
  show ?thesis
    using save_checkpoint_twice [OF h1 h2 h3 h4, of 1 2 5 6] unfolding k p3 p4 by simp
qed

end
